theory Spec2Isabelle
  imports Complex_Main "HOL-Library.Log_Nat"
begin

section \<open>Box geometry (pcleaner/structures.py)\<close>

text \<open>
  \<^verbatim>\<open>Box\<close> is a frozen attrs class of four Python integers. Python integers are
  unbounded, so the coordinates are \<^typ>\<open>int\<close>. Nothing in the class checks that
  \<open>x1 \<le> x2\<close> or \<open>y1 \<le> y2\<close>, so neither does the record.
\<close>

record Box =
  x1 :: int
  y1 :: int
  x2 :: int
  y2 :: int

definition mk_box :: "int \<Rightarrow> int \<Rightarrow> int \<Rightarrow> int \<Rightarrow> Box" where
  "mk_box a b c d = \<lparr>x1 = a, y1 = b, x2 = c, y2 = d\<rparr>"

text \<open>\<^verbatim>\<open>__contains__\<close>: inclusive on both edges.\<close>

definition contains :: "Box \<Rightarrow> int \<times> int \<Rightarrow> bool" where
  "contains b p = (x1 b \<le> fst p \<and> fst p \<le> x2 b \<and> y1 b \<le> snd p \<and> snd p \<le> y2 b)"

definition area :: "Box \<Rightarrow> int" where
  "area b = (x2 b - x1 b) * (y2 b - y1 b)"

text \<open>Python's \<^verbatim>\<open>//\<close> on integers rounds towards minus infinity, as \<open>div\<close> on \<^typ>\<open>int\<close> does.\<close>

definition center :: "Box \<Rightarrow> int \<times> int" where
  "center b = ((x1 b + x2 b) div 2, (y1 b + y2 b) div 2)"

definition merge :: "Box \<Rightarrow> Box \<Rightarrow> Box" where
  "merge b c =
     (let x_min = min (x1 b) (x1 c);
          y_min = min (y1 b) (y1 c);
          x_max = max (x2 b) (x2 c);
          y_max = max (y2 b) (y2 c)
      in mk_box x_min y_min x_max y_max)"

text \<open>
  \<^verbatim>\<open>overlaps\<close> computes with Python floats, which are IEEE 754 binary64 numbers.
  A finite float is a rational, and both divisions of the method are correctly
  rounded: \<^verbatim>\<open>intersection / smaller_area\<close> is the true division of two integers, and
  \<^verbatim>\<open>threshold / 100\<close> divides the float (or integer) threshold by 100. So each is the
  exact quotient rounded to the nearest binary64 number, ties to the even significand;
  the comparison of two floats is exact.

  \<open>round_double\<close> is that rounding on rationals. \<open>float_exponent x\<close> is the exponent
  \<open>e\<close> with \<open>2 powi e \<le> \<bar>x\<bar>\<close> and \<open>\<bar>x\<bar> < 2 powi (e + 1)\<close>, found from the bit lengths
  of numerator and denominator. \<open>float_ulp x\<close> is the spacing of the floats around
  \<open>x\<close>: \<open>2 powi (e - 52)\<close>, and \<open>2 powi (- 1074)\<close> in the subnormal range below
  \<open>2 powi (- 1022)\<close>. Overflow does not arise: the intersection is never larger than
  the smaller area when that is positive and is 0 otherwise, so the first quotient lies
  between 0 and 1, and a finite threshold divided by 100 is finite. The argument
  \<open>threshold\<close> is the exact value of the float that is passed.
\<close>

definition round_half_even :: "rat \<Rightarrow> int" where
  "round_half_even x =
     (let f = \<lfloor>x\<rfloor>; d = x - of_int f
      in if d < 1 / 2 then f
         else if 1 / 2 < d then f + 1
         else if even f then f else f + 1)"

definition float_exponent :: "rat \<Rightarrow> int" where
  "float_exponent x =
     (let p = fst (quotient_of \<bar>x\<bar>); q = snd (quotient_of \<bar>x\<bar>);
          e = bitlen p - bitlen q
      in if 2 powi e \<le> \<bar>x\<bar> then e else e - 1)"

definition float_ulp :: "rat \<Rightarrow> rat" where
  "float_ulp x = 2 powi (max (float_exponent x) (- 1022) - 52)"

definition round_double :: "rat \<Rightarrow> rat" where
  "round_double x =
     (if x = 0 then 0 else of_int (round_half_even (x / float_ulp x)) * float_ulp x)"

text \<open>
  \<^verbatim>\<open>min(...) or 1\<close> replaces a zero area by 1 (a negative area, which an inverted box
  can have, is truthy and stays).
\<close>

definition overlaps :: "Box \<Rightarrow> Box \<Rightarrow> rat \<Rightarrow> bool" where
  "overlaps b other threshold =
     (let x_overlap = max 0 (min (x2 b) (x2 other) - max (x1 b) (x1 other));
          y_overlap = max 0 (min (y2 b) (y2 other) - max (y1 b) (y1 other));
          intersection = x_overlap * y_overlap;
          smaller_area = (if min (area b) (area other) = 0 then 1 else min (area b) (area other))
      in round_double (of_int intersection / of_int smaller_area)
           > round_double (threshold / 100))"

definition overlaps_center :: "Box \<Rightarrow> Box \<Rightarrow> bool" where
  "overlaps_center b other = (contains other (center b) \<or> contains b (center other))"

text \<open>\<^verbatim>\<open>pad\<close>: the canvas size is the pair (width, height).\<close>

definition pad :: "Box \<Rightarrow> int \<Rightarrow> int \<times> int \<Rightarrow> Box" where
  "pad b amount canvas_size =
     (let x1_new = max (x1 b - amount) 0;
          y1_new = max (y1 b - amount) 0;
          x2_new = min (x2 b + amount) (fst canvas_size);
          y2_new = min (y2 b + amount) (snd canvas_size)
      in mk_box x1_new y1_new x2_new y2_new)"

text \<open>A box lies within the canvas when all four coordinates are between 0 and the
  corresponding canvas dimension.\<close>

definition within_canvas :: "Box \<Rightarrow> int \<times> int \<Rightarrow> bool" where
  "within_canvas b canvas_size =
     (0 \<le> x1 b \<and> x1 b \<le> fst canvas_size \<and> 0 \<le> x2 b \<and> x2 b \<le> fst canvas_size \<and>
      0 \<le> y1 b \<and> y1 b \<le> snd canvas_size \<and> 0 \<le> y2 b \<and> y2 b \<le> snd canvas_size)"

section \<open>Page geometry and overlap resolution (pcleaner/structures.py)\<close>

datatype BoxType = BOX | EXTENDED_BOX | MERGED_EXT_BOX | REFERENCE_BOX

text \<open>
  \<^verbatim>\<open>PageData\<close>: the float \<^verbatim>\<open>scale\<close> is kept as a rational (no claim computes with
  it), and the cached \<^verbatim>\<open>_image_size\<close> is \<open>None\<close> until it has been read.
\<close>

record PageData =
  image_path :: string
  mask_path :: string
  original_path :: string
  scale :: rat
  boxes :: "Box list"
  extended_boxes :: "Box list"
  merged_extended_boxes :: "Box list"
  reference_boxes :: "Box list"
  image_size :: "(int \<times> int) option"

text \<open>\<^verbatim>\<open>boxes_from_type\<close>: the enum has four members, so the \<^verbatim>\<open>ValueError\<close> branch
  of the \<^verbatim>\<open>match\<close> is never taken.\<close>

fun boxes_from_type :: "PageData \<Rightarrow> BoxType \<Rightarrow> Box list" where
  "boxes_from_type page BOX = boxes page"
| "boxes_from_type page EXTENDED_BOX = extended_boxes page"
| "boxes_from_type page MERGED_EXT_BOX = merged_extended_boxes page"
| "boxes_from_type page REFERENCE_BOX = reference_boxes page"

text \<open>
  \<^verbatim>\<open>boxes_from_type\<close> returns a reference to the list held by the page, and
  \<^verbatim>\<open>resolve_overlaps\<close> clears and refills that list in place; with explicit state
  this is an update of the field the box type selects.
\<close>

fun replace_boxes :: "BoxType \<Rightarrow> Box list \<Rightarrow> PageData \<Rightarrow> PageData" where
  "replace_boxes BOX bs page = page\<lparr>boxes := bs\<rparr>"
| "replace_boxes EXTENDED_BOX bs page = page\<lparr>extended_boxes := bs\<rparr>"
| "replace_boxes MERGED_EXT_BOX bs page = page\<lparr>merged_extended_boxes := bs\<rparr>"
| "replace_boxes REFERENCE_BOX bs page = page\<lparr>reference_boxes := bs\<rparr>"

text \<open>
  The inner loop of both resolution methods:
  \<^verbatim>\<open>for b in overlapping_boxes: box = box.merge(b); merge_queue.remove(b)\<close>.
  \<^verbatim>\<open>remove\<close> deletes the first element equal to \<open>b\<close>, as \<open>remove1\<close> does; every \<open>b\<close>
  was taken from the queue, so the removal never raises.
\<close>

fun merge_overlapping :: "Box list \<Rightarrow> Box \<Rightarrow> Box list \<Rightarrow> Box \<times> Box list" where
  "merge_overlapping [] box merge_queue = (box, merge_queue)"
| "merge_overlapping (b # overlapping_boxes) box merge_queue =
     merge_overlapping overlapping_boxes (merge box b) (remove1 b merge_queue)"

lemma merge_overlapping_length:
  "length (snd (merge_overlapping bs box queue)) \<le> length queue"
proof (induction bs arbitrary: box queue)
  case Nil
  show ?case by simp
next
  case (Cons b bs)
  have "length (snd (merge_overlapping bs (merge box b) (remove1 b queue)))
          \<le> length (remove1 b queue)"
    by (rule Cons.IH)
  also have "\<dots> \<le> length queue"
    by (simp add: length_remove1)
  finally show ?case by simp
qed

text \<open>
  The outer loop, \<^verbatim>\<open>while merge_queue: box = merge_queue.pop...\<close>, with the queue
  held in the order in which it is popped and iterated (front first). The two methods
  differ only in the test that selects \<^verbatim>\<open>overlapping_boxes\<close>, which is the first
  argument here; \<open>merged_boxes\<close> is the output list built by \<^verbatim>\<open>append\<close>.
\<close>

function merge_loop :: "(Box \<Rightarrow> Box \<Rightarrow> bool) \<Rightarrow> Box list \<Rightarrow> Box list \<Rightarrow> Box list" where
  "merge_loop test [] merged_boxes = merged_boxes"
| "merge_loop test (box # merge_queue) merged_boxes =
     (let overlapping_boxes = filter (test box) merge_queue;
          r = merge_overlapping overlapping_boxes box merge_queue
      in merge_loop test (snd r) (merged_boxes @ [fst r]))"
  by pat_completeness auto
termination
  by (relation "measure (\<lambda>(test, queue, merged). length queue)")
     (auto simp: merge_overlapping_length less_Suc_eq_le)

text \<open>\<^verbatim>\<open>resolve_total_overlaps\<close>: a FIFO queue copied from \<^verbatim>\<open>self.boxes\<close>.\<close>

definition resolve_total_overlaps :: "PageData \<Rightarrow> PageData" where
  "resolve_total_overlaps page =
     (let merge_queue = boxes page;
          merged_boxes = merge_loop overlaps_center merge_queue []
      in page\<lparr>boxes := merged_boxes\<rparr>)"


definition py_set :: "nat list \<Rightarrow> Box list \<Rightarrow> Box list" where
  "py_set layout bs = map (\<lambda>i. remdups bs ! i) layout"

definition resolve_overlaps ::
  "nat list \<Rightarrow> BoxType \<Rightarrow> BoxType \<Rightarrow> rat \<Rightarrow> PageData \<Rightarrow> PageData" where
  "resolve_overlaps layout from_type to_type threshold page =
     (let merge_queue = py_set layout (boxes_from_type page from_type);
          merged_boxes = merge_loop (\<lambda>box b. overlaps box b threshold) merge_queue []
      in replace_boxes to_type merged_boxes page)"

section \<open>Clusters\<close>

text \<open>
  What one run of the loop computes, as a list of clusters for the proofs below: each
  cluster is the box that was popped (its seed) with the queued boxes that passed the
  test against the seed; the queue that remains holds the boxes that failed it.
\<close>

fun clusters :: "(Box \<Rightarrow> Box \<Rightarrow> bool) \<Rightarrow> Box list \<Rightarrow> (Box \<times> Box list) list" where
  "clusters test [] = []"
| "clusters test (box # queue) =
     (box, filter (test box) queue) # clusters test (filter (\<lambda>b. \<not> test box b) queue)"

text \<open>The box a cluster contributes to the output: the seed merged with its members in turn.\<close>

definition cluster_box :: "Box \<times> Box list \<Rightarrow> Box" where
  "cluster_box c = foldl merge (fst c) (snd c)"

text \<open>No two different boxes of a list overlap above the threshold.\<close>

definition no_overlapping_pair :: "rat \<Rightarrow> Box list \<Rightarrow> bool" where
  "no_overlapping_pair threshold bs =
     list_all (\<lambda>a. list_all (\<lambda>b. a = b \<or> \<not> overlaps a b threshold) bs) bs"

text \<open>
  The FIFO algorithm of total-overlap resolution as the specification words it,
  independent of the code above. \<open>bounding_union\<close> is the specification's bounding box
  of two boxes (min of mins, max of maxes). \<open>fifo_merge\<close> pops the front box \<open>b\<close>, takes
  the bounding union of \<open>b\<close> with every queued box for which \<open>overlaps_center\<close> holds
  against \<open>b\<close>, accumulated in queue order, drops those boxes from the queue and emits
  the result.
\<close>

definition bounding_union :: "Box \<Rightarrow> Box \<Rightarrow> Box" where
  "bounding_union b c =
     \<lparr>x1 = min (x1 b) (x1 c), y1 = min (y1 b) (y1 c),
      x2 = max (x2 b) (x2 c), y2 = max (y2 b) (y2 c)\<rparr>"

fun fifo_merge :: "Box list \<Rightarrow> Box list" where
  "fifo_merge [] = []"
| "fifo_merge (b # queue) =
     foldl bounding_union b (filter (overlaps_center b) queue)
       # fifo_merge (filter (\<lambda>c. \<not> overlaps_center b c) queue)"

text \<open>Pages used in the examples below.\<close>

definition empty_page :: PageData where
  "empty_page = \<lparr>image_path = [], mask_path = [], original_path = [], scale = 1,
     boxes = [], extended_boxes = [], merged_extended_boxes = [], reference_boxes = [],
     image_size = None\<rparr>"

definition chain_page :: PageData where
  "chain_page = empty_page\<lparr>extended_boxes :=
     [mk_box 0 0 10 10, mk_box 8 8 20 20, mk_box 12 0 14 2]\<rparr>"

definition chain_page_20 :: PageData where
  "chain_page_20 = empty_page\<lparr>extended_boxes :=
     [mk_box 0 0 10 10, mk_box 5 5 20 20, mk_box 12 0 14 2]\<rparr>"


section \<open>Annotation records and analytics snapshots (pcleaner/structures.py)\<close>

text \<open>
  \<^verbatim>\<open>OCRAnalytic\<close> is the immutable snapshot and \<^verbatim>\<open>OCRResult\<close> the mutable record
  of one bubble. Paths are kept as strings. The field \<^verbatim>\<open>text\<close> of \<^verbatim>\<open>OCRResult\<close> is
  named \<open>ocr_text\<close> here.
\<close>

datatype OCRStatus = Normal | Removed | Edited | EditedRemoved | New

record OCRAnalytic =
  num_boxes :: int
  box_sizes_ocr :: "int list"
  box_sizes_removed :: "int list"
  removed_box_data :: "(string \<times> string \<times> Box) list"

record OCRResult =
  path :: string
  ocr_text :: string
  box :: Box
  label :: string
  status :: OCRStatus

text \<open>
  \<^verbatim>\<open>str(index)\<close> for the non-negative indices that \<^verbatim>\<open>enumerate\<close> produces: the
  decimal digits, most significant first, without leading zeros.
\<close>

definition digit_char :: "nat \<Rightarrow> char" where
  "digit_char d = ''0123456789'' ! d"

fun str :: "nat \<Rightarrow> string" where
  "str n = (if n < 10 then [digit_char n] else str (n div 10) @ [digit_char (n mod 10)])"

declare str.simps [simp del]

text \<open>
  The comprehension inside \<^verbatim>\<open>convert_ocr_analytics_to_results\<close>, with
  \<^verbatim>\<open>enumerate(..., start=1)\<close>; the outer loop appends one list per analytic.
\<close>

definition bubbles_of :: "OCRAnalytic \<Rightarrow> OCRResult list" where
  "bubbles_of analytic =
     [\<lparr>path = p, ocr_text = t, box = b, label = str index, status = Normal\<rparr>.
        (index, (p, t, b)) \<leftarrow> enumerate 1 (removed_box_data analytic)]"

definition convert_ocr_analytics_to_results :: "OCRAnalytic list \<Rightarrow> OCRResult list list" where
  "convert_ocr_analytics_to_results ocr_analytics =
     foldl (\<lambda>ocr_results analytic. ocr_results @ [bubbles_of analytic]) [] ocr_analytics"

text \<open>
  The comprehension inside \<^verbatim>\<open>convert_ocr_results_to_analytics\<close> (the source calls
  its result \<^verbatim>\<open>removed_box_data\<close>), and the outer loop that appends one analytic per
  image.
\<close>

definition kept_box_data :: "OCRResult list \<Rightarrow> (string \<times> string \<times> Box) list" where
  "kept_box_data results =
     [(path result, ocr_text result, box result). result \<leftarrow> results, status result \<noteq> Removed]"

definition convert_ocr_results_to_analytics :: "OCRResult list list \<Rightarrow> OCRAnalytic list" where
  "convert_ocr_results_to_analytics ocr_results =
     foldl (\<lambda>ocr_analytics results.
              let removed_box_data = kept_box_data results
              in ocr_analytics @
                 [\<lparr>num_boxes = int (length removed_box_data), box_sizes_ocr = [],
                   box_sizes_removed = [], removed_box_data = removed_box_data\<rparr>])
           [] ocr_results"

section \<open>The review window (pcleaner/gui/ocr_review_driver.py)\<close>

text \<open>
  The window holds the frozen analytics, the working results per image and the flag
  \<^verbatim>\<open>awaiting_user_input\<close>. What a method reads from a widget is an argument of its
  model: \<open>image_row\<close> is \<^verbatim>\<open>image_list.currentRow()\<close>, \<open>selected_row\<close> is
  \<^verbatim>\<open>tableWidget_ocr.currentRow()\<close>, \<open>current_text\<close> is \<^verbatim>\<open>tableWidget_ocr.currentText(1)\<close>,
  and a \<^verbatim>\<open>QRect\<close> is given by its \<^verbatim>\<open>topLeft()\<close> and \<^verbatim>\<open>bottomRight()\<close> corners.
  Redrawing the table and logging change nothing in this state. The decorator
  \<^verbatim>\<open>suppress_cell_update_handling\<close> leaves \<^verbatim>\<open>awaiting_user_input\<close> set when the
  method returns; a raised exception is the result \<open>Inl\<close>. The translated word
  \<^verbatim>\<open>self.tr("New")\<close> in the label of a new bubble is taken untranslated.
\<close>

datatype error = IndexError | StopIteration

record OcrReviewWindow =
  ocr_analytics :: "OCRAnalytic list"
  ocr_results :: "OCRResult list list"
  awaiting_user_input :: bool

record QRect =
  top_left_x :: int
  top_left_y :: int
  bottom_right_x :: int
  bottom_right_y :: int

text \<open>
  Indexing a Python list: a position from 0, or a negative index counted from the end;
  anything else raises \<^verbatim>\<open>IndexError\<close>. The result is the position from 0.
\<close>

definition py_index :: "'a list \<Rightarrow> int \<Rightarrow> error + nat" where
  "py_index xs i =
     (if 0 \<le> i \<and> i < int (length xs) then Inr (nat i)
      else if i < 0 \<and> - int (length xs) \<le> i then Inr (nat (int (length xs) + i))
      else Inl IndexError)"

text \<open>\<^verbatim>\<open>next(i for i, x in enumerate(xs) if P(x))\<close>: the first position, or
  \<^verbatim>\<open>StopIteration\<close> (\<open>None\<close>) when there is none.\<close>

fun next_index :: "('a \<Rightarrow> bool) \<Rightarrow> 'a list \<Rightarrow> nat option" where
  "next_index P [] = None"
| "next_index P (x # xs) = (if P x then Some 0 else map_option Suc (next_index P xs))"

definition delete_bubble :: "int \<Rightarrow> int \<Rightarrow> OcrReviewWindow \<Rightarrow> error + OcrReviewWindow" where
  "delete_bubble image_row selected_row w =
     (if selected_row = - 1 then Inr (w\<lparr>awaiting_user_input := True\<rparr>)
      else case py_index (ocr_results w) image_row of
        Inl e \<Rightarrow> Inl e
      | Inr i \<Rightarrow>
          let results = ocr_results w ! i in
          case py_index results selected_row of
            Inl e \<Rightarrow> Inl e
          | Inr j \<Rightarrow>
              let ocr_result = results ! j;
                  results' =
                    (if status ocr_result = New then take j results @ drop (Suc j) results
                     else if status ocr_result = Removed
                       then results[j := ocr_result\<lparr>status := Normal\<rparr>]
                     else if status ocr_result = EditedRemoved
                       then results[j := ocr_result\<lparr>status := Edited\<rparr>]
                     else if status ocr_result = Edited
                       then results[j := ocr_result\<lparr>status := EditedRemoved\<rparr>]
                     else results[j := ocr_result\<lparr>status := Removed\<rparr>])
              in Inr (w\<lparr>ocr_results := (ocr_results w)[i := results'],
                       awaiting_user_input := True\<rparr>))"

definition reset_single_bubble ::
  "int \<Rightarrow> int \<Rightarrow> OcrReviewWindow \<Rightarrow> error + OcrReviewWindow" where
  "reset_single_bubble image_row selected_row w =
     (if selected_row = - 1 then Inr (w\<lparr>awaiting_user_input := True\<rparr>)
      else case py_index (ocr_results w) image_row of
        Inl e \<Rightarrow> Inl e
      | Inr i \<Rightarrow>
          let results = ocr_results w ! i in
          case py_index results selected_row of
            Inl e \<Rightarrow> Inl e
          | Inr j \<Rightarrow>
              if status (results ! j) \<noteq> Edited \<and> status (results ! j) \<noteq> EditedRemoved
              then Inr (w\<lparr>awaiting_user_input := True\<rparr>)
              else case py_index (ocr_analytics w) image_row of
                Inl e \<Rightarrow> Inl e
              | Inr a \<Rightarrow>
                  let original_analytic = ocr_analytics w ! a;
                      original_results =
                        convert_ocr_analytics_to_results [original_analytic] ! 0
                  in case next_index (\<lambda>r. label r = label (results ! j)) original_results of
                       None \<Rightarrow> Inl StopIteration
                     | Some original_row \<Rightarrow>
                         Inr (w\<lparr>ocr_results :=
                                  (ocr_results w)
                                    [i := results[j := original_results ! original_row]],
                                awaiting_user_input := True\<rparr>))"

definition MIN_BUBBLE_SIZE :: int where
  "MIN_BUBBLE_SIZE = 400"

definition add_new_bubble :: "int \<Rightarrow> QRect \<Rightarrow> OcrReviewWindow \<Rightarrow> error + OcrReviewWindow" where
  "add_new_bubble image_row rect w =
     (let new_box = mk_box (top_left_x rect) (top_left_y rect)
                      (bottom_right_x rect) (bottom_right_y rect)
      in if area new_box < MIN_BUBBLE_SIZE then Inr (w\<lparr>awaiting_user_input := True\<rparr>)
         else case py_index (ocr_results w) image_row of
           Inl e \<Rightarrow> Inl e
         | Inr i \<Rightarrow>
             let results = ocr_results w ! i;
                 new_bubbles = length (filter (\<lambda>r. status r = New) results);
                 new_bubble_label = ''New'' @ '' '' @ str (new_bubbles + 1)
             in case py_index results 0 of
                  Inl e \<Rightarrow> Inl e
                | Inr k \<Rightarrow>
                    let image_path = path (results ! k);
                        bubble = \<lparr>path = image_path, ocr_text = [], box = new_box,
                                  label = new_bubble_label, status = New\<rparr>
                    in Inr (w\<lparr>ocr_results := (ocr_results w)[i := results @ [bubble]],
                             awaiting_user_input := True\<rparr>))"

definition handle_table_edited ::
  "int \<Rightarrow> string \<Rightarrow> int \<Rightarrow> int \<Rightarrow> OcrReviewWindow \<Rightarrow> error + OcrReviewWindow" where
  "handle_table_edited image_row current_text row col w =
     (if \<not> awaiting_user_input w then Inr w
      else if col \<noteq> 1 then Inr w
      else case py_index (ocr_results w) image_row of
        Inl e \<Rightarrow> Inl e
      | Inr i \<Rightarrow>
          let results = ocr_results w ! i in
          case py_index results row of
            Inl e \<Rightarrow> Inl e
          | Inr j \<Rightarrow>
              let r1 = (results ! j)\<lparr>ocr_text := current_text\<rparr>;
                  r2 = (if status r1 = Normal then r1\<lparr>status := Edited\<rparr> else r1);
                  r3 = (if status r2 = Removed then r2\<lparr>status := EditedRemoved\<rparr> else r2)
              in Inr (w\<lparr>ocr_results := (ocr_results w)[i := results[j := r3]],
                       awaiting_user_input := True\<rparr>))"

text \<open>Windows used in the examples below.\<close>

definition review_window :: OcrReviewWindow where
  "review_window =
     \<lparr>ocr_analytics =
        [\<lparr>num_boxes = 2, box_sizes_ocr = [], box_sizes_removed = [],
          removed_box_data = [(''page.png'', ''hello'', mk_box 0 0 50 20),
                              (''page.png'', ''world'', mk_box 0 30 50 50)]\<rparr>],
      ocr_results =
        [[\<lparr>path = ''page.png'', ocr_text = ''hullo'', box = mk_box 0 0 50 20,
           label = ''1'', status = Edited\<rparr>,
          \<lparr>path = ''page.png'', ocr_text = ''world'', box = mk_box 0 30 50 50,
           label = ''2'', status = Removed\<rparr>]],
      awaiting_user_input = True\<rparr>"

definition empty_window :: OcrReviewWindow where
  "empty_window =
     \<lparr>ocr_analytics =
        [\<lparr>num_boxes = 0, box_sizes_ocr = [], box_sizes_removed = [], removed_box_data = []\<rparr>],
      ocr_results = [[]],
      awaiting_user_input = True\<rparr>"

section \<open>Padding\<close>

text \<open>
  C7 (as stated): for every box, amount and canvas size the padded box lies within the
  canvas, and padding by 0 is the identity. Both halves fail for a box that does not
  already lie within the canvas: \<^verbatim>\<open>Box(20,20,30,30).pad(0, (10,10))\<close> is
  \<^verbatim>\<open>Box(20,20,10,10)\<close>, whose left edge 20 is beyond the canvas width 10 and which is
  not the box that was padded.
\<close>

theorem pad_counterexample:
  "\<not> within_canvas (pad (mk_box 20 20 30 30) 0 (10, 10)) (10, 10) \<and>
   pad (mk_box 20 20 30 30) 0 (10, 10) \<noteq> mk_box 20 20 30 30"
  by (simp add: pad_def within_canvas_def mk_box_def)

text \<open>
  C7 (amended): \<^verbatim>\<open>pad\<close> clamps the left and top edges from below only and the right
  and bottom edges from above only. So for a box that lies within the canvas and a
  non-negative amount, the padded box lies within the canvas; and for a box that lies
  within the canvas, padding by 0 is the identity.
\<close>

theorem pad_within_canvas:
  assumes "within_canvas a canvas"
  shows "(0 \<le> k \<longrightarrow> within_canvas (pad a k canvas) canvas) \<and> pad a 0 canvas = a"
  using assms by (auto simp: pad_def within_canvas_def mk_box_def)

theorem pad_within_canvas_witness:
  "within_canvas (mk_box 2 3 8 9) (10, 12) \<and>
   within_canvas (pad (mk_box 2 3 8 9) 5 (10, 12)) (10, 12) \<and>
   pad (mk_box 2 3 8 9) 5 (10, 12) = mk_box 0 0 10 12 \<and>
   pad (mk_box 2 3 8 9) 0 (10, 12) = mk_box 2 3 8 9"
proof -
  have h: "within_canvas (mk_box 2 3 8 9) (10, 12)"
    by (simp add: within_canvas_def mk_box_def)
  from pad_within_canvas [OF h, of 5] h show ?thesis
    by (simp add: pad_def mk_box_def)
qed

section \<open>Overlap resolution\<close>

lemma merge_overlapping_fst:
  "fst (merge_overlapping bs seed queue) = foldl merge seed bs"
  by (induction bs arbitrary: seed queue) simp_all

lemma merge_overlapping_snd_Cons:
  "a \<notin> set bs \<Longrightarrow>
   snd (merge_overlapping bs seed (a # queue)) = a # snd (merge_overlapping bs seed queue)"
  by (induction bs arbitrary: seed queue) auto

lemma merge_overlapping_snd_filter:
  "snd (merge_overlapping (filter P queue) seed queue) = filter (\<lambda>b. \<not> P b) queue"
proof (induction queue arbitrary: seed)
  case Nil
  show ?case by simp
next
  case (Cons a queue)
  show ?case
  proof (cases "P a")
    case True
    then show ?thesis using Cons.IH [of "merge seed a"] by simp
  next
    case False
    then have "a \<notin> set (filter P queue)" by simp
    then show ?thesis using False Cons.IH [of seed]
      by (simp add: merge_overlapping_snd_Cons)
  qed
qed

lemma merge_loop_clusters:
  "merge_loop test queue acc = acc @ map cluster_box (clusters test queue)"
proof (induction test queue acc rule: merge_loop.induct)
  case (1 test merged_boxes)
  show ?case by simp
next
  case (2 test seed merge_queue merged_boxes)
  from "2.IH" [OF refl refl] show ?case
    by (simp add: Let_def merge_overlapping_fst merge_overlapping_snd_filter cluster_box_def)
qed




lemma merge_bounding_union: "merge = bounding_union"
  by (intro ext) (simp add: merge_def bounding_union_def mk_box_def)

lemma fifo_merge_clusters:
  "fifo_merge queue = map cluster_box (clusters overlaps_center queue)"
  by (induction queue rule: fifo_merge.induct)
     (simp_all add: cluster_box_def merge_bounding_union)

text \<open>
  C4: \<^verbatim>\<open>resolve_total_overlaps\<close> rewrites the tight boxes by the FIFO algorithm
  \<open>fifo_merge\<close>: pop the front box, merge into it in queue order every queued box for
  which \<open>overlaps_center\<close> holds against the popped box, remove those from the queue and
  append the result; the output is in the order the representatives were popped. Two
  boxes become their bounding box exactly when \<open>overlaps_center\<close> holds for them, and
  stay as they are otherwise; in particular \<^verbatim>\<open>Box(0,0,10,10)\<close> and \<^verbatim>\<open>Box(2,2,8,8)\<close>
  give the one box \<^verbatim>\<open>Box(0,0,10,10)\<close>, and \<^verbatim>\<open>Box(0,0,10,10)\<close> and
  \<^verbatim>\<open>Box(100,100,110,110)\<close> pass through unchanged. In the last example the first box
  takes in the third, the fourth and the sixth (the sixth only because its center
  lies in the first), grows to their bounding box, and comes out before the second;
  the fifth box has its center inside the merged box only, not inside the popped one,
  and stays.
\<close>

theorem resolve_total_overlaps_fifo:
  "boxes (resolve_total_overlaps page) = fifo_merge (boxes page) \<and>
   boxes (resolve_total_overlaps (page\<lparr>boxes := [a, b]\<rparr>))
     = (if overlaps_center a b
        then [\<lparr>x1 = min (x1 a) (x1 b), y1 = min (y1 a) (y1 b),
               x2 = max (x2 a) (x2 b), y2 = max (y2 a) (y2 b)\<rparr>]
        else [a, b]) \<and>
   overlaps_center a b
     = (x1 b \<le> (x1 a + x2 a) div 2 \<and> (x1 a + x2 a) div 2 \<le> x2 b \<and>
        y1 b \<le> (y1 a + y2 a) div 2 \<and> (y1 a + y2 a) div 2 \<le> y2 b \<or>
        x1 a \<le> (x1 b + x2 b) div 2 \<and> (x1 b + x2 b) div 2 \<le> x2 a \<and>
        y1 a \<le> (y1 b + y2 b) div 2 \<and> (y1 b + y2 b) div 2 \<le> y2 a) \<and>
   boxes (resolve_total_overlaps (page\<lparr>boxes := [mk_box 0 0 10 10, mk_box 2 2 8 8]\<rparr>))
     = [mk_box 0 0 10 10] \<and>
   boxes (resolve_total_overlaps
            (page\<lparr>boxes := [mk_box 0 0 10 10, mk_box 100 100 110 110]\<rparr>))
     = [mk_box 0 0 10 10, mk_box 100 100 110 110] \<and>
   boxes (resolve_total_overlaps
            (page\<lparr>boxes := [mk_box 0 0 10 10, mk_box 100 100 110 110, mk_box 4 4 30 12,
                             mk_box 2 2 8 40, mk_box 20 30 28 38, mk_box 6 6 9 9]\<rparr>))
     = [mk_box 0 0 30 40, mk_box 100 100 110 110, mk_box 20 30 28 38]"
proof -
  have fifo: "boxes (resolve_total_overlaps p) = fifo_merge (boxes p)" for p
    by (simp add: resolve_total_overlaps_def merge_loop_clusters fifo_merge_clusters)
  have two: "fifo_merge [a, b]
      = (if overlaps_center a b
         then [\<lparr>x1 = min (x1 a) (x1 b), y1 = min (y1 a) (y1 b),
                x2 = max (x2 a) (x2 b), y2 = max (y2 a) (y2 b)\<rparr>]
         else [a, b])"
    by (simp add: bounding_union_def)
  have s1: "fifo_merge [mk_box 0 0 10 10, mk_box 2 2 8 8] = [mk_box 0 0 10 10]"
    by code_simp
  have s2: "fifo_merge [mk_box 0 0 10 10, mk_box 100 100 110 110]
              = [mk_box 0 0 10 10, mk_box 100 100 110 110]"
    by code_simp
  have s3: "fifo_merge [mk_box 0 0 10 10, mk_box 100 100 110 110, mk_box 4 4 30 12,
                        mk_box 2 2 8 40, mk_box 20 30 28 38, mk_box 6 6 9 9]
              = [mk_box 0 0 30 40, mk_box 100 100 110 110, mk_box 20 30 28 38]"
    by code_simp
  have oc: "overlaps_center a b
     = (x1 b \<le> (x1 a + x2 a) div 2 \<and> (x1 a + x2 a) div 2 \<le> x2 b \<and>
        y1 b \<le> (y1 a + y2 a) div 2 \<and> (y1 a + y2 a) div 2 \<le> y2 b \<or>
        x1 a \<le> (x1 b + x2 b) div 2 \<and> (x1 b + x2 b) div 2 \<le> x2 a \<and>
        y1 a \<le> (y1 b + y2 b) div 2 \<and> (y1 b + y2 b) div 2 \<le> y2 a)"
    by (simp add: overlaps_center_def contains_def center_def)
  have r1: "boxes (resolve_total_overlaps (page\<lparr>boxes := [a, b]\<rparr>))
     = (if overlaps_center a b
        then [\<lparr>x1 = min (x1 a) (x1 b), y1 = min (y1 a) (y1 b),
               x2 = max (x2 a) (x2 b), y2 = max (y2 a) (y2 b)\<rparr>]
        else [a, b])"
    unfolding fifo using two by simp
  have r2: "boxes (resolve_total_overlaps
                     (page\<lparr>boxes := [mk_box 0 0 10 10, mk_box 2 2 8 8]\<rparr>))
     = [mk_box 0 0 10 10]"
    unfolding fifo using s1 by simp
  have r3: "boxes (resolve_total_overlaps
            (page\<lparr>boxes := [mk_box 0 0 10 10, mk_box 100 100 110 110]\<rparr>))
     = [mk_box 0 0 10 10, mk_box 100 100 110 110]"
    unfolding fifo using s2 by simp
  have r4: "boxes (resolve_total_overlaps
            (page\<lparr>boxes := [mk_box 0 0 10 10, mk_box 100 100 110 110, mk_box 4 4 30 12,
                             mk_box 2 2 8 40, mk_box 20 30 28 38, mk_box 6 6 9 9]\<rparr>))
     = [mk_box 0 0 30 40, mk_box 100 100 110 110, mk_box 20 30 28 38]"
    unfolding fifo using s3 by simp
  from fifo [of page] r1 oc r2 r3 r4 show ?thesis
    by (intro conjI)
qed

lemma chain_out:
  "merged_extended_boxes (resolve_overlaps [0, 1, 2] EXTENDED_BOX MERGED_EXT_BOX 0 chain_page)
     = [mk_box 0 0 20 20, mk_box 12 0 14 2]"
  "merged_extended_boxes (resolve_overlaps [0, 2, 1] EXTENDED_BOX MERGED_EXT_BOX 0 chain_page)
     = [mk_box 0 0 20 20, mk_box 12 0 14 2]"
  "merged_extended_boxes (resolve_overlaps [1, 0, 2] EXTENDED_BOX MERGED_EXT_BOX 0 chain_page)
     = [mk_box 0 0 20 20, mk_box 12 0 14 2]"
  "merged_extended_boxes (resolve_overlaps [1, 2, 0] EXTENDED_BOX MERGED_EXT_BOX 0 chain_page)
     = [mk_box 0 0 20 20, mk_box 12 0 14 2]"
  "merged_extended_boxes (resolve_overlaps [2, 0, 1] EXTENDED_BOX MERGED_EXT_BOX 0 chain_page)
     = [mk_box 12 0 14 2, mk_box 0 0 20 20]"
  "merged_extended_boxes (resolve_overlaps [2, 1, 0] EXTENDED_BOX MERGED_EXT_BOX 0 chain_page)
     = [mk_box 12 0 14 2, mk_box 0 0 20 20]"
  by code_simp+

lemma chain_out_20:
  "merged_extended_boxes
     (resolve_overlaps [0, 1, 2] EXTENDED_BOX MERGED_EXT_BOX 20 chain_page_20)
     = [mk_box 0 0 20 20, mk_box 12 0 14 2]"
  "merged_extended_boxes
     (resolve_overlaps [0, 2, 1] EXTENDED_BOX MERGED_EXT_BOX 20 chain_page_20)
     = [mk_box 0 0 20 20, mk_box 12 0 14 2]"
  "merged_extended_boxes
     (resolve_overlaps [1, 0, 2] EXTENDED_BOX MERGED_EXT_BOX 20 chain_page_20)
     = [mk_box 0 0 20 20, mk_box 12 0 14 2]"
  "merged_extended_boxes
     (resolve_overlaps [1, 2, 0] EXTENDED_BOX MERGED_EXT_BOX 20 chain_page_20)
     = [mk_box 0 0 20 20, mk_box 12 0 14 2]"
  "merged_extended_boxes
     (resolve_overlaps [2, 0, 1] EXTENDED_BOX MERGED_EXT_BOX 20 chain_page_20)
     = [mk_box 12 0 14 2, mk_box 0 0 20 20]"
  "merged_extended_boxes
     (resolve_overlaps [2, 1, 0] EXTENDED_BOX MERGED_EXT_BOX 20 chain_page_20)
     = [mk_box 12 0 14 2, mk_box 0 0 20 20]"
  by code_simp+

lemma chain_pairs:
  "overlaps (mk_box 0 0 20 20) (mk_box 12 0 14 2) 0"
  "\<not> no_overlapping_pair 0 [mk_box 0 0 20 20, mk_box 12 0 14 2]"
  "\<not> no_overlapping_pair 0 [mk_box 12 0 14 2, mk_box 0 0 20 20]"
  "overlaps (mk_box 0 0 20 20) (mk_box 12 0 14 2) 20"
  "\<not> no_overlapping_pair 20 [mk_box 0 0 20 20, mk_box 12 0 14 2]"
  "\<not> no_overlapping_pair 20 [mk_box 12 0 14 2, mk_box 0 0 20 20]"
  by code_simp+

text \<open>
  C1: after \<^verbatim>\<open>resolve_overlaps\<close> no two boxes of the \<^verbatim>\<open>to_type\<close> collection
  should satisfy \<^verbatim>\<open>overlaps\<close> at the threshold. The code does not achieve this. For
  the extended boxes \<^verbatim>\<open>Box(0,0,10,10)\<close>, \<^verbatim>\<open>Box(8,8,20,20)\<close>, \<^verbatim>\<open>Box(12,0,14,2)\<close> at
  threshold 0 the first two overlap and are merged into \<^verbatim>\<open>Box(0,0,20,20)\<close>; the
  third overlaps neither of them, so it is never tested against the merged box and
  stays in the output, although it lies inside that box. The same happens at threshold
  20 with \<^verbatim>\<open>Box(5,5,20,20)\<close> as the second box. Every order in which the set can hold
  the three boxes gives these two output boxes.
\<close>

theorem resolve_overlaps_counterexample:
  "merged_extended_boxes (resolve_overlaps [0, 1, 2] EXTENDED_BOX MERGED_EXT_BOX 0 chain_page)
     = [mk_box 0 0 20 20, mk_box 12 0 14 2] \<and>
   merged_extended_boxes (resolve_overlaps [0, 2, 1] EXTENDED_BOX MERGED_EXT_BOX 0 chain_page)
     = [mk_box 0 0 20 20, mk_box 12 0 14 2] \<and>
   merged_extended_boxes (resolve_overlaps [1, 0, 2] EXTENDED_BOX MERGED_EXT_BOX 0 chain_page)
     = [mk_box 0 0 20 20, mk_box 12 0 14 2] \<and>
   merged_extended_boxes (resolve_overlaps [1, 2, 0] EXTENDED_BOX MERGED_EXT_BOX 0 chain_page)
     = [mk_box 0 0 20 20, mk_box 12 0 14 2] \<and>
   merged_extended_boxes (resolve_overlaps [2, 0, 1] EXTENDED_BOX MERGED_EXT_BOX 0 chain_page)
     = [mk_box 12 0 14 2, mk_box 0 0 20 20] \<and>
   merged_extended_boxes (resolve_overlaps [2, 1, 0] EXTENDED_BOX MERGED_EXT_BOX 0 chain_page)
     = [mk_box 12 0 14 2, mk_box 0 0 20 20] \<and>
   overlaps (mk_box 0 0 20 20) (mk_box 12 0 14 2) 0 \<and>
   \<not> no_overlapping_pair 0 [mk_box 0 0 20 20, mk_box 12 0 14 2] \<and>
   \<not> no_overlapping_pair 0 [mk_box 12 0 14 2, mk_box 0 0 20 20] \<and>
   merged_extended_boxes
     (resolve_overlaps [0, 1, 2] EXTENDED_BOX MERGED_EXT_BOX 20 chain_page_20)
     = [mk_box 0 0 20 20, mk_box 12 0 14 2] \<and>
   merged_extended_boxes
     (resolve_overlaps [0, 2, 1] EXTENDED_BOX MERGED_EXT_BOX 20 chain_page_20)
     = [mk_box 0 0 20 20, mk_box 12 0 14 2] \<and>
   merged_extended_boxes
     (resolve_overlaps [1, 0, 2] EXTENDED_BOX MERGED_EXT_BOX 20 chain_page_20)
     = [mk_box 0 0 20 20, mk_box 12 0 14 2] \<and>
   merged_extended_boxes
     (resolve_overlaps [1, 2, 0] EXTENDED_BOX MERGED_EXT_BOX 20 chain_page_20)
     = [mk_box 0 0 20 20, mk_box 12 0 14 2] \<and>
   merged_extended_boxes
     (resolve_overlaps [2, 0, 1] EXTENDED_BOX MERGED_EXT_BOX 20 chain_page_20)
     = [mk_box 12 0 14 2, mk_box 0 0 20 20] \<and>
   merged_extended_boxes
     (resolve_overlaps [2, 1, 0] EXTENDED_BOX MERGED_EXT_BOX 20 chain_page_20)
     = [mk_box 12 0 14 2, mk_box 0 0 20 20] \<and>
   overlaps (mk_box 0 0 20 20) (mk_box 12 0 14 2) 20 \<and>
   \<not> no_overlapping_pair 20 [mk_box 0 0 20 20, mk_box 12 0 14 2] \<and>
   \<not> no_overlapping_pair 20 [mk_box 12 0 14 2, mk_box 0 0 20 20]"
  by (intro conjI chain_out chain_out_20 chain_pairs)



section \<open>Conversions between Annotation Sets and snapshots\<close>

lemma py_index_nat: "k < length xs \<Longrightarrow> py_index xs (int k) = Inr k"
  by (simp add: py_index_def)

lemma py_index_Nil: "py_index [] i = Inl IndexError"
  by (simp add: py_index_def)

lemma convert_results_fold:
  "foldl (\<lambda>acc x. acc @ [f x]) acc xs = acc @ map f xs"
  by (induction xs arbitrary: acc) simp_all

lemma convert_ocr_analytics_to_results_map:
  "convert_ocr_analytics_to_results analytics = map bubbles_of analytics"
  by (simp add: convert_ocr_analytics_to_results_def convert_results_fold)

lemma kept_box_data_filter:
  "kept_box_data results =
     map (\<lambda>r. (path r, ocr_text r, box r)) (filter (\<lambda>r. status r \<noteq> Removed) results)"
  by (induction results) (simp_all add: kept_box_data_def)

lemma bubble_triple:
  "(\<lambda>r. (path r, ocr_text r, box r)) \<circ>
   (\<lambda>(index, (p, t, b)).
      \<lparr>path = p, ocr_text = t, box = b, label = str index, status = Normal\<rparr>) = snd"
  by (rule ext) (simp add: split_def)

lemma bubbles_of_triples:
  "map (\<lambda>r. (path r, ocr_text r, box r)) (bubbles_of analytic) = removed_box_data analytic"
  unfolding bubbles_of_def map_map bubble_triple
  by (rule map_snd_enumerate)

lemma convert_ocr_results_to_analytics_map:
  "convert_ocr_results_to_analytics rss =
     map (\<lambda>results. \<lparr>num_boxes = int (length (kept_box_data results)), box_sizes_ocr = [],
                       box_sizes_removed = [], removed_box_data = kept_box_data results\<rparr>) rss"
  by (simp add: convert_ocr_results_to_analytics_def convert_results_fold Let_def)

text \<open>
  C3: \<^verbatim>\<open>convert_ocr_results_to_analytics\<close> emits for every Annotation Set, in set
  order, the (path, text, box) triple of each record whose status is not
  \<^verbatim>\<open>Removed\<close>, that is, whose status is \<^verbatim>\<open>Normal\<close>, \<^verbatim>\<open>Edited\<close>,
  \<^verbatim>\<open>EditedRemoved\<close> or \<^verbatim>\<open>New\<close>; label and status are not part of the output;
  \<^verbatim>\<open>num_boxes\<close> is the number of emitted triples and both size lists are empty.
\<close>

theorem convert_ocr_results_to_analytics_collapse:
  "convert_ocr_results_to_analytics rss =
     map (\<lambda>results.
            \<lparr>num_boxes = int (length (filter (\<lambda>r. status r \<noteq> Removed) results)),
             box_sizes_ocr = [], box_sizes_removed = [],
             removed_box_data = map (\<lambda>r. (path r, ocr_text r, box r))
                                  (filter (\<lambda>r. status r \<noteq> Removed) results)\<rparr>) rss \<and>
   (status r \<noteq> Removed) = (status r \<in> {Normal, Edited, EditedRemoved, New})"
proof -
  have "(status r \<noteq> Removed) = (status r \<in> {Normal, Edited, EditedRemoved, New})"
    by (cases "status r") simp_all
  then show ?thesis
    by (simp add: convert_ocr_results_to_analytics_map kept_box_data_filter)
qed

text \<open>
  C6: collapsing Annotation Sets to snapshots and expanding the snapshots again gives
  records whose (path, text, box) triples are, in the same order, those of the original
  records whose status is not \<^verbatim>\<open>Removed\<close>; exactly the \<^verbatim>\<open>Removed\<close> records
  are absent.
\<close>

theorem collapse_expand_roundtrip:
  "map (map (\<lambda>r. (path r, ocr_text r, box r)))
     (convert_ocr_analytics_to_results (convert_ocr_results_to_analytics rss))
   = map (\<lambda>results. map (\<lambda>r. (path r, ocr_text r, box r))
                        (filter (\<lambda>r. status r \<noteq> Removed) results)) rss"
  by (simp add: convert_ocr_analytics_to_results_map convert_ocr_results_to_analytics_map
      bubbles_of_triples kept_box_data_filter comp_def)

section \<open>The review state machine\<close>

lemma py_index_bound: "py_index xs i = Inr k \<Longrightarrow> k < length xs"
  by (auto simp: py_index_def split: if_splits)

lemma digit_char_inj:
  assumes "a < 10" and "b < 10" and "digit_char a = digit_char b"
  shows "a = b"
proof -
  have d: "distinct ''0123456789''" by simp
  have l: "length ''0123456789'' = 10" by simp
  from assms show ?thesis
    unfolding digit_char_def using nth_eq_iff_index_eq [OF d, of a b] l by simp
qed

lemma str_length: "length (str n) = Suc 0 \<longleftrightarrow> n < 10"
proof (induction n rule: str.induct)
  case (1 n)
  show ?case
  proof (cases "n < 10")
    case True
    then show ?thesis by (simp add: str.simps [of n])
  next
    case False
    have "str (n div 10) \<noteq> []"
      by (simp add: str.simps [of "n div 10"])
    then have "length (str (n div 10)) \<noteq> 0" by simp
    with False show ?thesis by (simp add: str.simps [of n])
  qed
qed

lemma str_inj: "str m = str n \<Longrightarrow> m = n"
proof (induction m arbitrary: n rule: str.induct)
  case (1 m)
  show ?case
  proof (cases "m < 10")
    case True
    then have "length (str m) = 1" by (simp add: str_length)
    with "1.prems" have "length (str n) = 1" by simp
    then have n: "n < 10" by (simp add: str_length)
    with True "1.prems" have "digit_char m = digit_char n"
      by (simp add: str.simps [of m] str.simps [of n])
    with True n show ?thesis by (rule digit_char_inj)
  next
    case False
    then have "length (str m) \<noteq> 1" by (simp add: str_length)
    with "1.prems" have n: "\<not> n < 10" by (simp add: str_length)
    from False n "1.prems"
    have eq: "str (m div 10) @ [digit_char (m mod 10)] = str (n div 10) @ [digit_char (n mod 10)]"
      by (simp add: str.simps [of m] str.simps [of n])
    then have "str (m div 10) = str (n div 10)" by simp
    with False have d: "m div 10 = n div 10" by (rule "1.IH")
    from eq have "digit_char (m mod 10) = digit_char (n mod 10)" by simp
    then have "m mod 10 = n mod 10"
      by (intro digit_char_inj) simp_all
    with d show ?thesis
      by (metis div_mult_mod_eq)
  qed
qed

lemma bubbles_of_labels:
  "map label (bubbles_of analytic) = map str [1..<1 + length (removed_box_data analytic)]"
proof -
  have "label \<circ> (\<lambda>(index, (p, t, b)).
          \<lparr>path = p, ocr_text = t, box = b, label = str index, status = Normal\<rparr>) = str \<circ> fst"
    by (rule ext) (simp add: split_def)
  then have "map label (bubbles_of analytic)
      = map str (map fst (enumerate 1 (removed_box_data analytic)))"
    unfolding bubbles_of_def map_map by simp
  then show ?thesis
    by (simp only: map_fst_enumerate)
qed

lemma bubbles_of_distinct_labels: "distinct (map label (bubbles_of analytic))"
  unfolding bubbles_of_labels
  by (simp add: distinct_map inj_on_def str_inj del: upt_Suc)

lemma next_index_unique:
  "distinct (map f xs) \<Longrightarrow> e \<in> set xs \<Longrightarrow>
   \<exists>k. next_index (\<lambda>r. f r = f e) xs = Some k \<and> xs ! k = e"
proof (induction xs)
  case Nil
  then show ?case by simp
next
  case (Cons x xs)
  show ?case
  proof (cases "f x = f e")
    case True
    with Cons.prems have "x = e" by force
    with True show ?thesis by simp
  next
    case False
    with Cons.prems have "e \<in> set xs" and "distinct (map f xs)" by auto
    from Cons.IH [OF this(2) this(1)] False show ?thesis by auto
  qed
qed

lemma map_label_update:
  "k < length xs \<Longrightarrow> f r = f (xs ! k) \<Longrightarrow> map f (xs[k := r]) = map f xs"
  by (simp add: map_update list_update_same_conv)

text \<open>
  C2: with a selected record, \<^verbatim>\<open>delete_bubble\<close> follows the transition table: a
  \<^verbatim>\<open>New\<close> record is removed from the set, \<^verbatim>\<open>Removed\<close> becomes \<^verbatim>\<open>Normal\<close>,
  \<^verbatim>\<open>EditedRemoved\<close> becomes \<^verbatim>\<open>Edited\<close>, \<^verbatim>\<open>Edited\<close> becomes \<^verbatim>\<open>EditedRemoved\<close> and
  \<^verbatim>\<open>Normal\<close> becomes \<^verbatim>\<open>Removed\<close>; nothing else in the set changes. Toggling an
  \<^verbatim>\<open>Edited\<close> record twice gives \<^verbatim>\<open>EditedRemoved\<close> and then the original set again.
\<close>

theorem delete_bubble_transitions:
  assumes "i < length (ocr_results w)" and "j < length (ocr_results w ! i)"
  shows "let results = ocr_results w ! i; r = results ! j in
     delete_bubble (int i) (int j) w =
       Inr (w\<lparr>ocr_results := (ocr_results w)[i :=
               (case status r of
                  New \<Rightarrow> take j results @ drop (Suc j) results
                | Removed \<Rightarrow> results[j := r\<lparr>status := Normal\<rparr>]
                | EditedRemoved \<Rightarrow> results[j := r\<lparr>status := Edited\<rparr>]
                | Edited \<Rightarrow> results[j := r\<lparr>status := EditedRemoved\<rparr>]
                | Normal \<Rightarrow> results[j := r\<lparr>status := Removed\<rparr>])],
             awaiting_user_input := True\<rparr>) \<and>
     (status r = Edited \<longrightarrow>
        (case delete_bubble (int i) (int j) w of
           Inl e \<Rightarrow> False
         | Inr w1 \<Rightarrow>
             status (ocr_results w1 ! i ! j) = EditedRemoved \<and>
             (case delete_bubble (int i) (int j) w1 of
                Inl e \<Rightarrow> False
              | Inr w2 \<Rightarrow> ocr_results w2 = ocr_results w)))"
proof -
  let ?rs = "ocr_results w ! i"
  let ?r = "?rs ! j"
  have step: "delete_bubble (int i) (int j) v =
       Inr (v\<lparr>ocr_results := (ocr_results v)[i :=
               (case status (ocr_results v ! i ! j) of
                  New \<Rightarrow> take j (ocr_results v ! i) @ drop (Suc j) (ocr_results v ! i)
                | Removed \<Rightarrow> (ocr_results v ! i)[j := (ocr_results v ! i ! j)\<lparr>status := Normal\<rparr>]
                | EditedRemoved \<Rightarrow> (ocr_results v ! i)[j := (ocr_results v ! i ! j)\<lparr>status := Edited\<rparr>]
                | Edited \<Rightarrow> (ocr_results v ! i)[j := (ocr_results v ! i ! j)\<lparr>status := EditedRemoved\<rparr>]
                | Normal \<Rightarrow> (ocr_results v ! i)[j := (ocr_results v ! i ! j)\<lparr>status := Removed\<rparr>])],
             awaiting_user_input := True\<rparr>)"
    if "i < length (ocr_results v)" and "j < length (ocr_results v ! i)" for v
    using that
    by (cases "status (ocr_results v ! i ! j)")
       (simp_all add: delete_bubble_def py_index_nat Let_def)
  have twice: "case delete_bubble (int i) (int j) w of
           Inl e \<Rightarrow> False
         | Inr w1 \<Rightarrow>
             status (ocr_results w1 ! i ! j) = EditedRemoved \<and>
             (case delete_bubble (int i) (int j) w1 of
                Inl e \<Rightarrow> False
              | Inr w2 \<Rightarrow> ocr_results w2 = ocr_results w)"
    if ed: "status ?r = Edited"
  proof -
    let ?w1 = "w\<lparr>ocr_results := (ocr_results w)[i := ?rs[j := ?r\<lparr>status := EditedRemoved\<rparr>]],
                 awaiting_user_input := True\<rparr>"
    have one: "delete_bubble (int i) (int j) w = Inr ?w1"
      using step [OF assms] ed by simp
    have len: "i < length (ocr_results ?w1)" "j < length (ocr_results ?w1 ! i)"
      using assms by simp_all
    have st: "status (ocr_results ?w1 ! i ! j) = EditedRemoved"
      using assms by simp
    have same: "?r\<lparr>status := Edited\<rparr> = ?r"
      using ed by (cases ?r) simp
    have two: "delete_bubble (int i) (int j) ?w1 =
        Inr (w\<lparr>ocr_results := ocr_results w, awaiting_user_input := True\<rparr>)"
      unfolding step [OF len] using assms
      by (simp add: same)
    show ?thesis
      unfolding one sum.case two using st by simp
  qed
  from step [OF assms] twice show ?thesis
    unfolding Let_def by blast
qed

lemma str_examples: "str (Suc 0) = ''1''" "str (Suc (Suc 0)) = ''2''"
  by code_simp+

lemma review_window_original:
  "convert_ocr_analytics_to_results [ocr_analytics review_window ! 0] ! 0 =
     [\<lparr>path = ''page.png'', ocr_text = ''hello'', box = mk_box 0 0 50 20,
        label = ''1'', status = Normal\<rparr>,
      \<lparr>path = ''page.png'', ocr_text = ''world'', box = mk_box 0 30 50 50,
        label = ''2'', status = Normal\<rparr>]"
  by (simp add: convert_ocr_analytics_to_results_map bubbles_of_def review_window_def
      str_examples)

theorem delete_bubble_transitions_witness:
  "0 < length (ocr_results review_window) \<and>
   0 < length (ocr_results review_window ! 0) \<and>
   status (ocr_results review_window ! 0 ! 0) = Edited \<and>
   (case delete_bubble 0 0 review_window of
      Inl e \<Rightarrow> False
    | Inr w1 \<Rightarrow>
        status (ocr_results w1 ! 0 ! 0) = EditedRemoved \<and>
        (case delete_bubble 0 0 w1 of
           Inl e \<Rightarrow> False
         | Inr w2 \<Rightarrow> ocr_results w2 = ocr_results review_window))"
proof -
  have h1: "0 < length (ocr_results review_window)"
    by (simp add: review_window_def)
  have h2: "0 < length (ocr_results review_window ! 0)"
    by (simp add: review_window_def)
  have h3: "status (ocr_results review_window ! 0 ! 0) = Edited"
    by (simp add: review_window_def)
  from delete_bubble_transitions [OF h1 h2] h3
  have "case delete_bubble (int 0) (int 0) review_window of
      Inl e \<Rightarrow> False
    | Inr w1 \<Rightarrow>
        status (ocr_results w1 ! 0 ! 0) = EditedRemoved \<and>
        (case delete_bubble (int 0) (int 0) w1 of
           Inl e \<Rightarrow> False
         | Inr w2 \<Rightarrow> ocr_results w2 = ocr_results review_window)"
    unfolding Let_def by blast
  with h1 h2 h3 show ?thesis
    unfolding of_nat_0 by blast
qed

text \<open>
  C5: a text edit (the window awaiting input, column 1) stores the new text in the
  record; a \<^verbatim>\<open>Normal\<close> record becomes \<^verbatim>\<open>Edited\<close>, a \<^verbatim>\<open>Removed\<close> record becomes
  \<^verbatim>\<open>EditedRemoved\<close>, and any other status stays. Whatever the arguments, a call that
  returns leaves every label as it was.
\<close>

theorem handle_table_edited_transitions:
  assumes "i < length (ocr_results w)" and "j < length (ocr_results w ! i)"
    and "awaiting_user_input w"
  shows "let results = ocr_results w ! i; r = results ! j in
     handle_table_edited (int i) new_text (int j) 1 w =
       Inr (w\<lparr>ocr_results := (ocr_results w)[i := results[j :=
               r\<lparr>ocr_text := new_text,
                  status := (case status r of
                               Normal \<Rightarrow> Edited
                             | Removed \<Rightarrow> EditedRemoved
                             | Edited \<Rightarrow> Edited
                             | EditedRemoved \<Rightarrow> EditedRemoved
                             | New \<Rightarrow> New)\<rparr>]],
             awaiting_user_input := True\<rparr>) \<and>
     (handle_table_edited image_row any_text row col w = Inr w' \<longrightarrow>
        map (map label) (ocr_results w') = map (map label) (ocr_results w))"
proof -
  let ?rs = "ocr_results w ! i"
  let ?r = "?rs ! j"
  have same: "r\<lparr>ocr_text := t, status := s\<rparr> = r\<lparr>ocr_text := t\<rparr>"
    if "status r = s" for r :: OCRResult and t s
    using that by (cases r) simp
  have edit: "handle_table_edited (int i) new_text (int j) 1 w =
       Inr (w\<lparr>ocr_results := (ocr_results w)[i := ?rs[j :=
               ?r\<lparr>ocr_text := new_text,
                  status := (case status ?r of
                               Normal \<Rightarrow> Edited
                             | Removed \<Rightarrow> EditedRemoved
                             | Edited \<Rightarrow> Edited
                             | EditedRemoved \<Rightarrow> EditedRemoved
                             | New \<Rightarrow> New)\<rparr>]],
             awaiting_user_input := True\<rparr>)"
    using assms
    by (cases "status ?r")
       (simp_all add: handle_table_edited_def py_index_nat Let_def same)
  have labels: "map (map label) (ocr_results w') = map (map label) (ocr_results w)"
    if run: "handle_table_edited image_row any_text row col w = Inr w'"
  proof (cases "\<not> awaiting_user_input w \<or> col \<noteq> 1")
    case True
    with run have "w' = w"
      by (auto simp: handle_table_edited_def split: if_splits)
    then show ?thesis by simp
  next
    case False
    with run obtain a where a: "py_index (ocr_results w) image_row = Inr a"
      by (cases "py_index (ocr_results w) image_row")
         (simp_all add: handle_table_edited_def)
    with run False obtain b where b: "py_index (ocr_results w ! a) row = Inr b"
      by (cases "py_index (ocr_results w ! a) row")
         (simp_all add: handle_table_edited_def Let_def)
    from a have la: "a < length (ocr_results w)" by (rule py_index_bound)
    from b have lb: "b < length (ocr_results w ! a)" by (rule py_index_bound)
    define r' where "r' =
       (let r1 = (ocr_results w ! a ! b)\<lparr>ocr_text := any_text\<rparr>;
            r2 = (if status r1 = Normal then r1\<lparr>status := Edited\<rparr> else r1);
            r3 = (if status r2 = Removed then r2\<lparr>status := EditedRemoved\<rparr> else r2)
        in r3)"
    have lr: "label r' = label (ocr_results w ! a ! b)"
      by (simp add: r'_def Let_def)
    from run False a b have w': "w' = w\<lparr>ocr_results :=
          (ocr_results w)[a := (ocr_results w ! a)[b := r']], awaiting_user_input := True\<rparr>"
      by (simp add: handle_table_edited_def Let_def r'_def)
    have inner: "map label ((ocr_results w ! a)[b := r']) = map label (ocr_results w ! a)"
      using lb lr by (rule map_label_update)
    have "map (map label) ((ocr_results w)[a := (ocr_results w ! a)[b := r']])
            = map (map label) (ocr_results w)"
      using la inner by (rule map_label_update)
    then show ?thesis by (simp add: w')
  qed
  from edit labels show ?thesis
    unfolding Let_def by blast
qed

theorem handle_table_edited_transitions_witness:
  "0 < length (ocr_results review_window) \<and>
   1 < length (ocr_results review_window ! 0) \<and>
   awaiting_user_input review_window \<and>
   status (ocr_results review_window ! 0 ! 1) = Removed \<and>
   handle_table_edited 0 ''WORLD'' 1 1 review_window =
     Inr (review_window\<lparr>ocr_results :=
            [[\<lparr>path = ''page.png'', ocr_text = ''hullo'', box = mk_box 0 0 50 20,
               label = ''1'', status = Edited\<rparr>,
              \<lparr>path = ''page.png'', ocr_text = ''WORLD'', box = mk_box 0 30 50 50,
               label = ''2'', status = EditedRemoved\<rparr>]]\<rparr>) \<and>
   map (map label)
     (ocr_results (review_window\<lparr>ocr_results :=
            [[\<lparr>path = ''page.png'', ocr_text = ''hullo'', box = mk_box 0 0 50 20,
               label = ''1'', status = Edited\<rparr>,
              \<lparr>path = ''page.png'', ocr_text = ''WORLD'', box = mk_box 0 30 50 50,
               label = ''2'', status = EditedRemoved\<rparr>]]\<rparr>))
     = map (map label) (ocr_results review_window)"
proof -
  let ?w' = "review_window\<lparr>ocr_results :=
            [[\<lparr>path = ''page.png'', ocr_text = ''hullo'', box = mk_box 0 0 50 20,
               label = ''1'', status = Edited\<rparr>,
              \<lparr>path = ''page.png'', ocr_text = ''WORLD'', box = mk_box 0 30 50 50,
               label = ''2'', status = EditedRemoved\<rparr>]]\<rparr>"
  have h1: "0 < length (ocr_results review_window)"
    by (simp add: review_window_def)
  have h2: "1 < length (ocr_results review_window ! 0)"
    by (simp add: review_window_def)
  have h3: "awaiting_user_input review_window"
    by (simp add: review_window_def)
  have h4: "status (ocr_results review_window ! 0 ! 1) = Removed"
    by (simp add: review_window_def)
  note t = handle_table_edited_transitions
             [OF h1 h2 h3, of "''WORLD''" 0 "''WORLD''" 1 1 ?w', unfolded Let_def]
  from t have "handle_table_edited (int 0) ''WORLD'' (int 1) 1 review_window =
       Inr (review_window\<lparr>ocr_results := (ocr_results review_window)[0 :=
              (ocr_results review_window ! 0)[1 :=
               (ocr_results review_window ! 0 ! 1)\<lparr>ocr_text := ''WORLD'',
                  status := (case status (ocr_results review_window ! 0 ! 1) of
                               Normal \<Rightarrow> Edited
                             | Removed \<Rightarrow> EditedRemoved
                             | Edited \<Rightarrow> Edited
                             | EditedRemoved \<Rightarrow> EditedRemoved
                             | New \<Rightarrow> New)\<rparr>]],
             awaiting_user_input := True\<rparr>)"
    by (rule conjunct1)
  then have run: "handle_table_edited 0 ''WORLD'' 1 1 review_window = Inr ?w'"
    by (simp add: review_window_def)
  from t have "handle_table_edited 0 ''WORLD'' 1 1 review_window = Inr ?w' \<longrightarrow>
        map (map label) (ocr_results ?w') = map (map label) (ocr_results review_window)"
    by (rule conjunct2)
  with run have "map (map label) (ocr_results ?w') = map (map label) (ocr_results review_window)"
    by (rule rev_mp)
  with h1 h2 h3 h4 run show ?thesis by blast
qed

text \<open>
  C8: \<^verbatim>\<open>reset_single_bubble\<close> on a record that is neither \<^verbatim>\<open>Edited\<close> nor
  \<^verbatim>\<open>EditedRemoved\<close> returns normally and leaves the Annotation Set as it was. On an
  \<^verbatim>\<open>Edited\<close> or \<^verbatim>\<open>EditedRemoved\<close> record it puts, at the record's position, the entry
  of the expanded original snapshot whose label equals the record's label.
\<close>

theorem reset_single_bubble_policy:
  assumes "i < length (ocr_results w)" and "j < length (ocr_results w ! i)"
  shows "let results = ocr_results w ! i; r = results ! j in
     (status r \<noteq> Edited \<and> status r \<noteq> EditedRemoved \<longrightarrow>
        reset_single_bubble (int i) (int j) w = Inr (w\<lparr>awaiting_user_input := True\<rparr>)) \<and>
     ((status r = Edited \<or> status r = EditedRemoved) \<and> i < length (ocr_analytics w) \<and>
      e \<in> set (convert_ocr_analytics_to_results [ocr_analytics w ! i] ! 0) \<and>
      label e = label r \<longrightarrow>
        reset_single_bubble (int i) (int j) w =
          Inr (w\<lparr>ocr_results := (ocr_results w)[i := results[j := e]],
                awaiting_user_input := True\<rparr>))"
proof -
  let ?rs = "ocr_results w ! i"
  let ?r = "?rs ! j"
  let ?orig = "convert_ocr_analytics_to_results [ocr_analytics w ! i] ! 0"
  have noop: "reset_single_bubble (int i) (int j) w = Inr (w\<lparr>awaiting_user_input := True\<rparr>)"
    if "status ?r \<noteq> Edited \<and> status ?r \<noteq> EditedRemoved"
    using that assms by (simp add: reset_single_bubble_def py_index_nat Let_def)
  have restore: "reset_single_bubble (int i) (int j) w =
          Inr (w\<lparr>ocr_results := (ocr_results w)[i := ?rs[j := e]],
                awaiting_user_input := True\<rparr>)"
    if st: "status ?r = Edited \<or> status ?r = EditedRemoved"
      and ia: "i < length (ocr_analytics w)"
      and mem: "e \<in> set ?orig" and lab: "label e = label ?r"
  proof -
    have orig: "?orig = bubbles_of (ocr_analytics w ! i)"
      by (simp add: convert_ocr_analytics_to_results_map)
    from mem have "e \<in> set (bubbles_of (ocr_analytics w ! i))"
      by (simp only: orig)
    from next_index_unique [OF bubbles_of_distinct_labels this]
    obtain k where k: "next_index (\<lambda>r. label r = label e) (bubbles_of (ocr_analytics w ! i)) = Some k"
      and e: "bubbles_of (ocr_analytics w ! i) ! k = e"
      by blast
    from st have edited:
      "(status ?r \<noteq> Edited \<and> status ?r \<noteq> EditedRemoved) = False"
      by blast
    show ?thesis
      unfolding reset_single_bubble_def
      using assms ia k e
      by (simp add: py_index_nat Let_def orig lab [symmetric] edited)
  qed
  from noop restore show ?thesis
    unfolding Let_def by blast
qed

theorem reset_single_bubble_policy_witness:
  "0 < length (ocr_results review_window) \<and>
   0 < length (ocr_results review_window ! 0) \<and>
   1 < length (ocr_results review_window ! 0) \<and>
   0 < length (ocr_analytics review_window) \<and>
   status (ocr_results review_window ! 0 ! 1) = Removed \<and>
   reset_single_bubble 0 1 review_window = Inr review_window \<and>
   status (ocr_results review_window ! 0 ! 0) = Edited \<and>
   reset_single_bubble 0 0 review_window =
     Inr (review_window\<lparr>ocr_results :=
            [[\<lparr>path = ''page.png'', ocr_text = ''hello'', box = mk_box 0 0 50 20,
               label = ''1'', status = Normal\<rparr>,
              \<lparr>path = ''page.png'', ocr_text = ''world'', box = mk_box 0 30 50 50,
               label = ''2'', status = Removed\<rparr>]]\<rparr>)"
proof -
  let ?e = "\<lparr>path = ''page.png'', ocr_text = ''hello'', box = mk_box 0 0 50 20,
             label = ''1'', status = Normal\<rparr>"
  have h1: "0 < length (ocr_results review_window)"
    by (simp add: review_window_def)
  have h2: "0 < length (ocr_results review_window ! 0)"
    by (simp add: review_window_def)
  have h2': "1 < length (ocr_results review_window ! 0)"
    by (simp add: review_window_def)
  have h3: "0 < length (ocr_analytics review_window)"
    by (simp add: review_window_def)
  have s1: "status (ocr_results review_window ! 0 ! 1) = Removed"
    by (simp add: review_window_def)
  have s0: "status (ocr_results review_window ! 0 ! 0) = Edited"
    by (simp add: review_window_def)
  have mem: "?e \<in> set (convert_ocr_analytics_to_results [ocr_analytics review_window ! 0] ! 0)"
    unfolding review_window_original by simp
  have lab: "label ?e = label (ocr_results review_window ! 0 ! 0)"
    by (simp add: review_window_def)
  from s1 have n1: "status (ocr_results review_window ! 0 ! 1) \<noteq> Edited \<and>
                    status (ocr_results review_window ! 0 ! 1) \<noteq> EditedRemoved"
    by simp
  from reset_single_bubble_policy [OF h1 h2', unfolded Let_def]
  have "status (ocr_results review_window ! 0 ! 1) \<noteq> Edited \<and>
        status (ocr_results review_window ! 0 ! 1) \<noteq> EditedRemoved \<longrightarrow>
        reset_single_bubble (int 0) (int 1) review_window =
          Inr (review_window\<lparr>awaiting_user_input := True\<rparr>)"
    by (rule conjunct1)
  with n1 have "reset_single_bubble (int 0) (int 1) review_window =
          Inr (review_window\<lparr>awaiting_user_input := True\<rparr>)"
    by (rule rev_mp)
  then have noop: "reset_single_bubble 0 1 review_window = Inr review_window"
    by (simp add: review_window_def)
  from reset_single_bubble_policy [OF h1 h2, of ?e, unfolded Let_def]
  have "(status (ocr_results review_window ! 0 ! 0) = Edited \<or>
         status (ocr_results review_window ! 0 ! 0) = EditedRemoved) \<and>
        0 < length (ocr_analytics review_window) \<and>
        ?e \<in> set (convert_ocr_analytics_to_results [ocr_analytics review_window ! 0] ! 0) \<and>
        label ?e = label (ocr_results review_window ! 0 ! 0) \<longrightarrow>
        reset_single_bubble (int 0) (int 0) review_window =
          Inr (review_window\<lparr>ocr_results := (ocr_results review_window)
                  [0 := (ocr_results review_window ! 0)[0 := ?e]],
                awaiting_user_input := True\<rparr>)"
    by (rule conjunct2)
  with s0 h3 mem lab have "reset_single_bubble (int 0) (int 0) review_window =
          Inr (review_window\<lparr>ocr_results := (ocr_results review_window)
                  [0 := (ocr_results review_window ! 0)[0 := ?e]],
                awaiting_user_input := True\<rparr>)"
    by blast
  then have restore: "reset_single_bubble 0 0 review_window =
     Inr (review_window\<lparr>ocr_results :=
            [[?e, \<lparr>path = ''page.png'', ocr_text = ''world'', box = mk_box 0 30 50 50,
               label = ''2'', status = Removed\<rparr>]]\<rparr>)"
    by (simp add: review_window_def)
  from h1 h2 h2' h3 s1 noop s0 restore show ?thesis by blast
qed

text \<open>
  C9: \<^verbatim>\<open>add_new_bubble\<close> takes the path of the new record from the first record of
  the image's Annotation Set. For a rectangle of area at least 400, an empty set gives
  \<^verbatim>\<open>IndexError\<close> and nothing is appended; a non-empty set gets the new record at its
  end.
\<close>

theorem add_new_bubble_empty_set:
  assumes "i < length (ocr_results w)"
    and "MIN_BUBBLE_SIZE \<le> area (mk_box (top_left_x rect) (top_left_y rect)
                                  (bottom_right_x rect) (bottom_right_y rect))"
  shows "(ocr_results w ! i = [] \<longrightarrow> add_new_bubble (int i) rect w = Inl IndexError) \<and>
         (ocr_results w ! i \<noteq> [] \<longrightarrow>
            add_new_bubble (int i) rect w =
              Inr (w\<lparr>ocr_results := (ocr_results w)[i := ocr_results w ! i @
                      [\<lparr>path = path (ocr_results w ! i ! 0), ocr_text = [],
                        box = mk_box (top_left_x rect) (top_left_y rect)
                                (bottom_right_x rect) (bottom_right_y rect),
                        label = ''New '' @ str (length (filter (\<lambda>r. status r = New)
                                                     (ocr_results w ! i)) + 1),
                        status = New\<rparr>]],
                    awaiting_user_input := True\<rparr>))"
proof -
  from assms(2) have big: "\<not> area (mk_box (top_left_x rect) (top_left_y rect)
                     (bottom_right_x rect) (bottom_right_y rect)) < MIN_BUBBLE_SIZE"
    by simp
  have empty: "add_new_bubble (int i) rect w = Inl IndexError" if "ocr_results w ! i = []"
    using that assms(1) big
    by (simp add: add_new_bubble_def Let_def py_index_nat py_index_Nil)
  have first: "py_index (ocr_results w ! i) 0 = Inr 0" if "ocr_results w ! i \<noteq> []"
    using that by (simp add: py_index_def)
  have full: "add_new_bubble (int i) rect w =
              Inr (w\<lparr>ocr_results := (ocr_results w)[i := ocr_results w ! i @
                      [\<lparr>path = path (ocr_results w ! i ! 0), ocr_text = [],
                        box = mk_box (top_left_x rect) (top_left_y rect)
                                (bottom_right_x rect) (bottom_right_y rect),
                        label = ''New '' @ str (length (filter (\<lambda>r. status r = New)
                                                     (ocr_results w ! i)) + 1),
                        status = New\<rparr>]],
                    awaiting_user_input := True\<rparr>)"
    if "ocr_results w ! i \<noteq> []"
    using assms(1) big first [OF that]
    by (simp add: add_new_bubble_def Let_def py_index_nat)
  from empty full show ?thesis by blast
qed

theorem add_new_bubble_empty_set_witness:
  "0 < length (ocr_results empty_window) \<and>
   ocr_results empty_window ! 0 = [] \<and>
   MIN_BUBBLE_SIZE \<le> area (mk_box 0 0 30 30) \<and>
   add_new_bubble 0
     \<lparr>top_left_x = 0, top_left_y = 0, bottom_right_x = 30, bottom_right_y = 30\<rparr>
     empty_window = Inl IndexError"
proof -
  let ?rect = "\<lparr>top_left_x = 0, top_left_y = 0, bottom_right_x = 30, bottom_right_y = 30\<rparr>"
  have h1: "0 < length (ocr_results empty_window)"
    by (simp add: empty_window_def)
  have h2: "MIN_BUBBLE_SIZE \<le> area (mk_box (top_left_x ?rect) (top_left_y ?rect)
                                  (bottom_right_x ?rect) (bottom_right_y ?rect))"
    by (simp add: MIN_BUBBLE_SIZE_def area_def mk_box_def)
  have h3: "ocr_results empty_window ! 0 = []"
    by (simp add: empty_window_def)
  from add_new_bubble_empty_set [OF h1 h2]
  have "ocr_results empty_window ! 0 = [] \<longrightarrow>
          add_new_bubble (int 0) ?rect empty_window = Inl IndexError"
    by (rule conjunct1)
  with h3 have "add_new_bubble (int 0) ?rect empty_window = Inl IndexError"
    by (rule rev_mp)
  with h1 h2 h3 show ?thesis by simp
qed

end
